theory Spec2Isabelle
  imports Complex_Main "HOL-Library.Monad_Syntax" "HOL-Library.Log_Nat"
begin

section \<open>Data model (tic-tac-toe.models.ts)\<close>

text \<open>
  The two marks of \<^verbatim>\<open>enum TicTacToePlayer { X, O }\<close>. A cell is a mark or \<^verbatim>\<open>null\<close>
  (\<open>None\<close>); a board is the flattened array of cells.
\<close>

datatype TicTacToePlayer = PlayerX | PlayerO

type_synonym TicTacToeCell = "TicTacToePlayer option"

type_synonym TicTacToeBoard = "TicTacToeCell list"

datatype TicTacToeStatus = Idle | InProgress | Won | Draw

record TicTacToeMove =
  index :: nat
  player :: TicTacToePlayer

text \<open>
  The optional fields \<^verbatim>\<open>winner?\<close> and \<^verbatim>\<open>winningLine?\<close> are options: \<open>None\<close> is an
  absent (or \<^verbatim>\<open>undefined\<close>) field. Cell indices stored in a snapshot are naturals, and
  \<^verbatim>\<open>moveCount\<close> is an integer-valued number.
\<close>

record TicTacToeSnapshot =
  board :: TicTacToeBoard
  status :: TicTacToeStatus
  currentPlayer :: TicTacToePlayer
  winner :: "TicTacToePlayer option"
  winningLine :: "nat list option"
  moveCount :: int
  history :: "TicTacToeMove list"

section \<open>Numbers passed as a move index\<close>

text \<open>
  \<^verbatim>\<open>playMove\<close> and \<^verbatim>\<open>canPlay\<close> take a \<^verbatim>\<open>number\<close>, which need not be an integer. Every
  finite double is a rational, and the code only compares the index with integers, tests
  it with \<^verbatim>\<open>Number.isInteger\<close> and uses it as an array key, all of which are exact; so a
  number is a rational or one of the three non-finite values.
\<close>

datatype jsnumber = Finite rat | NaN | PosInfinity | NegInfinity

fun isInteger :: "jsnumber \<Rightarrow> bool" where
  "isInteger (Finite q) = (q = of_int \<lfloor>q\<rfloor>)"
| "isInteger NaN = False"
| "isInteger PosInfinity = False"
| "isInteger NegInfinity = False"

text \<open>\<^verbatim>\<open>x < k\<close> and \<^verbatim>\<open>x >= k\<close> for a number \<open>x\<close> and a natural \<open>k\<close>; both are false on NaN.\<close>

fun num_lt :: "jsnumber \<Rightarrow> nat \<Rightarrow> bool" where
  "num_lt (Finite q) k = (q < of_nat k)"
| "num_lt NaN k = False"
| "num_lt PosInfinity k = False"
| "num_lt NegInfinity k = True"

fun num_ge :: "jsnumber \<Rightarrow> nat \<Rightarrow> bool" where
  "num_ge (Finite q) k = (of_nat k \<le> q)"
| "num_ge NaN k = False"
| "num_ge PosInfinity k = True"
| "num_ge NegInfinity k = False"

text \<open>The natural a non-negative integral number denotes.\<close>

fun to_index :: "jsnumber \<Rightarrow> nat" where
  "to_index (Finite q) = nat \<lfloor>q\<rfloor>"
| "to_index NaN = 0"
| "to_index PosInfinity = 0"
| "to_index NegInfinity = 0"

definition of_index :: "nat \<Rightarrow> jsnumber" where
  "of_index k = Finite (of_nat k)"

text \<open>
  Arithmetic on a \<^verbatim>\<open>number\<close> is arithmetic on doubles: the result of \<^verbatim>\<open>a + b\<close> is the exact
  sum rounded to the nearest double, a tie going to the even mantissa. A double has 53
  bits of mantissa, so every integer of magnitude at most \<open>2\<^sup>5\<^sup>3\<close> is a double, and a larger
  integer \<open>z\<close> lies between the neighbouring doubles \<open>q * 2\<^sup>e\<close> and \<open>(q + 1) * 2\<^sup>e\<close>, where
  \<open>e\<close> is the number of bits of \<open>|z|\<close> beyond 53. (The sum of a finite double and one stays
  below the largest double's successor, so no sum of the engine rounds to infinity.)
\<close>

definition round_to_double :: "int \<Rightarrow> int" where
  "round_to_double z =
     (if \<bar>z\<bar> \<le> 2 ^ 53 then z
      else
        (let e = nat (bitlen \<bar>z\<bar> - 53);
             q = \<bar>z\<bar> div 2 ^ e;
             r = \<bar>z\<bar> mod 2 ^ e;
             q' = (if 2 * r < 2 ^ e \<or> (2 * r = 2 ^ e \<and> even q) then q else q + 1)
         in sgn z * (q' * 2 ^ e)))"

text \<open>
  \<^verbatim>\<open>board[i]\<close> for a natural \<open>i\<close>: the element, or \<^verbatim>\<open>undefined\<close> (\<open>None\<close>) past the end.
\<close>

definition cell_at :: "TicTacToeBoard \<Rightarrow> nat \<Rightarrow> TicTacToeCell option" where
  "cell_at b i = (if i < length b then Some (b ! i) else None)"

text \<open>
  \<^verbatim>\<open>board[index]\<close> for a number: only a non-negative integer below the length is an
  element's key; any other key reads \<^verbatim>\<open>undefined\<close>.
\<close>

definition board_at :: "TicTacToeBoard \<Rightarrow> jsnumber \<Rightarrow> TicTacToeCell option" where
  "board_at b x = (if isInteger x \<and> num_ge x 0 then cell_at b (to_index x) else None)"

section \<open>The engine (tic-tac-toe-engine.ts)\<close>

text \<open>
  The errors the engine throws, named as the specification names them:
  \<^item> \<open>InvalidBoardSize\<close>: \<^verbatim>\<open>Board size must be at least 3.\<close>
  \<^item> \<open>InvalidArrayLength\<close>: the \<^verbatim>\<open>RangeError\<close> of \<^verbatim>\<open>Array.from({ length: ... })\<close> for a
    length above \<open>2\<^sup>3\<^sup>2 - 1\<close>, the longest array there is.
  \<^item> \<open>SizeMismatch\<close>: \<^verbatim>\<open>Snapshot size does not match the configured board.\<close>
  \<^item> \<open>GameNotInProgress\<close>: \<^verbatim>\<open>Game is not currently accepting moves.\<close>
  \<^item> \<open>IndexOutOfRange\<close>: \<^verbatim>\<open>Move index must be an integer between 0 and ...\<close>
  \<^item> \<open>CellOccupied\<close>: \<^verbatim>\<open>Cell ... is already occupied.\<close>
  \<^item> \<open>NoMovesAvailable\<close>: \<^verbatim>\<open>No moves available.\<close>
\<close>

datatype EngineError =
  InvalidBoardSize | InvalidArrayLength | SizeMismatch | GameNotInProgress | IndexOutOfRange
  | CellOccupied | NoMovesAvailable

record TicTacToeEngine =
  boardSize :: nat
  totalCells :: nat
  snapshot :: TicTacToeSnapshot

text \<open>
  A method takes the engine and returns the engine after the call together with either
  the error thrown or the snapshot returned. A throw leaves the engine as it was at the
  throw.
\<close>

type_synonym EngineResult = "TicTacToeEngine \<times> (EngineError + TicTacToeSnapshot)"

definition createEmptySnapshot :: "nat \<Rightarrow> TicTacToePlayer \<Rightarrow> TicTacToeSnapshot" where
  "createEmptySnapshot cells firstPlayer =
     \<lparr> board = replicate cells None,
       status = InProgress,
       currentPlayer = firstPlayer,
       winner = None,
       winningLine = None,
       moveCount = 0,
       history = [] \<rparr>"

text \<open>
  The constructor: the size check, then \<^verbatim>\<open>createEmptySnapshot\<close>, whose \<^verbatim>\<open>Array.from\<close>
  throws when \<^verbatim>\<open>totalCells\<close> is no array length. \<^verbatim>\<open>reset\<close> creates an array of the length
  the constructor has created, and so does not throw.
\<close>

definition new_engine :: "nat \<Rightarrow> TicTacToePlayer \<Rightarrow> EngineError + TicTacToeEngine" where
  "new_engine n firstPlayer =
     (if n < 3 then Inl InvalidBoardSize
      else if 2 ^ 32 - 1 < int (n * n) then Inl InvalidArrayLength
      else Inr \<lparr> boardSize = n,
                 totalCells = n * n,
                 snapshot = createEmptySnapshot (n * n) firstPlayer \<rparr>)"

text \<open>
  \<^verbatim>\<open>cloneSnapshot\<close> builds a new object with copies of the board and history arrays; as a
  value it is the snapshot itself.
\<close>

definition cloneSnapshot :: "TicTacToeEngine \<Rightarrow> TicTacToeSnapshot" where
  "cloneSnapshot e =
     (snapshot e)\<lparr> board := board (snapshot e), history := history (snapshot e) \<rparr>"

definition getSnapshot :: "TicTacToeEngine \<Rightarrow> TicTacToeSnapshot" where
  "getSnapshot e = cloneSnapshot e"

definition reset :: "TicTacToeEngine \<Rightarrow> TicTacToePlayer \<Rightarrow> EngineResult" where
  "reset e firstPlayer =
     (let e' = e\<lparr> snapshot := createEmptySnapshot (totalCells e) firstPlayer \<rparr>
      in (e', Inr (cloneSnapshot e')))"

definition loadSnapshot :: "TicTacToeEngine \<Rightarrow> TicTacToeSnapshot \<Rightarrow> EngineResult" where
  "loadSnapshot e s =
     (if length (board s) \<noteq> totalCells e then (e, Inl SizeMismatch)
      else
        (let e' = e\<lparr> snapshot := s\<lparr> board := board s, history := history s \<rparr> \<rparr>
         in (e', Inr (cloneSnapshot e'))))"

definition togglePlayer :: "TicTacToePlayer \<Rightarrow> TicTacToePlayer" where
  "togglePlayer p = (if p = PlayerX then PlayerO else PlayerX)"

subsection \<open>Winning lines and the board evaluator\<close>

definition computeWinningLines :: "nat \<Rightarrow> nat list list" where
  "computeWinningLines n =
     map (\<lambda>row. map (\<lambda>idx. row * n + idx) [0..<n]) [0..<n]
     @ map (\<lambda>col. map (\<lambda>idx. idx * n + col) [0..<n]) [0..<n]
     @ [map (\<lambda>idx. idx * (n + 1)) [0..<n],
        map (\<lambda>idx. (idx + 1) * (n - 1)) [0..<n]]"

text \<open>
  \<^verbatim>\<open>const [a, b, c] = line\<close> takes the first three elements of the line, each
  \<^verbatim>\<open>undefined\<close> where the line is shorter; \<^verbatim>\<open>board[undefined]\<close> is \<^verbatim>\<open>undefined\<close>.
\<close>

definition line_elem :: "nat list \<Rightarrow> nat \<Rightarrow> nat option" where
  "line_elem line k = (if k < length line then Some (line ! k) else None)"

fun cell_of :: "TicTacToeBoard \<Rightarrow> nat option \<Rightarrow> TicTacToeCell option" where
  "cell_of b None = None"
| "cell_of b (Some i) = cell_at b i"

text \<open>
  The test \<^verbatim>\<open>board[a] && board[a] === board[b] && board[a] === board[c]\<close>: a mark is
  truthy, \<^verbatim>\<open>null\<close> and \<^verbatim>\<open>undefined\<close> are not. The result is the mark \<^verbatim>\<open>board[a]\<close> when
  the test passes.
\<close>

definition line_winner :: "TicTacToeBoard \<Rightarrow> nat list \<Rightarrow> TicTacToePlayer option" where
  "line_winner b line =
     (case cell_of b (line_elem line 0) of
        Some (Some p) \<Rightarrow>
          (if cell_of b (line_elem line 1) = Some (Some p)
              \<and> cell_of b (line_elem line 2) = Some (Some p)
           then Some p else None)
      | _ \<Rightarrow> None)"

fun scan_lines :: "TicTacToeBoard \<Rightarrow> nat list list \<Rightarrow> (TicTacToePlayer \<times> nat list) option" where
  "scan_lines b [] = None"
| "scan_lines b (line # rest) =
     (case line_winner b line of
        Some p \<Rightarrow> Some (p, line)
      | None \<Rightarrow> scan_lines b rest)"

record StatusResult =
  res_status :: TicTacToeStatus
  res_winner :: "TicTacToePlayer option"
  res_winningLine :: "nat list option"

definition evaluateBoard :: "TicTacToeEngine \<Rightarrow> TicTacToeBoard \<Rightarrow> StatusResult" where
  "evaluateBoard e b =
     (case scan_lines b (computeWinningLines (boardSize e)) of
        Some (p, line) \<Rightarrow>
          \<lparr> res_status = Won, res_winner = Some p, res_winningLine = Some line \<rparr>
      | None \<Rightarrow>
          (if list_all (\<lambda>cell. cell \<noteq> None) b
           then \<lparr> res_status = Draw, res_winner = None, res_winningLine = None \<rparr>
           else \<lparr> res_status = InProgress, res_winner = None, res_winningLine = None \<rparr>))"

subsection \<open>Playing a move\<close>

text \<open>\<open>None\<close> when the move is allowed, otherwise the error thrown.\<close>

definition assertMoveIsAllowed :: "TicTacToeEngine \<Rightarrow> jsnumber \<Rightarrow> EngineError option" where
  "assertMoveIsAllowed e x =
     (if status (snapshot e) \<noteq> InProgress then Some GameNotInProgress
      else if \<not> isInteger x \<or> num_lt x 0 \<or> num_ge x (totalCells e) then Some IndexOutOfRange
      else if board_at (board (snapshot e)) x \<noteq> Some None then Some CellOccupied
      else None)"

text \<open>
  The body of \<^verbatim>\<open>playMove\<close> after the check, for the index as a natural: the engine with
  its new snapshot.
\<close>

definition place_mark :: "TicTacToeEngine \<Rightarrow> nat \<Rightarrow> TicTacToeEngine" where
  "place_mark e k =
     (let s = snapshot e;
          b = (board s)[k := Some (currentPlayer s)];
          h = history s @ [\<lparr> index = k, player = currentPlayer s \<rparr>];
          mc = round_to_double (moveCount s + 1);
          statusResult = evaluateBoard e b;
          nextPlayer =
            (if res_status statusResult = InProgress
             then togglePlayer (currentPlayer s)
             else currentPlayer s)
      in e\<lparr> snapshot :=
           \<lparr> board = b,
             status = res_status statusResult,
             currentPlayer = nextPlayer,
             winner = res_winner statusResult,
             winningLine = res_winningLine statusResult,
             moveCount = mc,
             history = h \<rparr> \<rparr>)"

text \<open>
  After \<^verbatim>\<open>assertMoveIsAllowed\<close> the index is an integer whose cell reads \<^verbatim>\<open>null\<close>, hence
  lies inside the array, and the assignment \<^verbatim>\<open>board[index] = ...\<close> overwrites that cell.
\<close>

definition playMove :: "TicTacToeEngine \<Rightarrow> jsnumber \<Rightarrow> EngineResult" where
  "playMove e x =
     (case assertMoveIsAllowed e x of
        Some err \<Rightarrow> (e, Inl err)
      | None \<Rightarrow>
          (let e' = place_mark e (to_index x)
           in (e', Inr (cloneSnapshot e'))))"

subsection \<open>Inspection and automatic play\<close>

text \<open>
  \<^verbatim>\<open>board.map((cell, idx) => cell === null ? idx : -1).filter(idx => idx !== -1)\<close>
\<close>

definition getAvailableMoves :: "TicTacToeEngine \<Rightarrow> int list" where
  "getAvailableMoves e =
     filter (\<lambda>idx. idx \<noteq> - 1)
       (map (\<lambda>(cell, idx). if cell = None then int idx else - 1)
         (zip (board (snapshot e)) [0..<length (board (snapshot e))]))"

definition canPlay :: "TicTacToeEngine \<Rightarrow> jsnumber \<Rightarrow> bool" where
  "canPlay e x =
     (num_ge x 0 \<and> num_lt x (totalCells e)
      \<and> board_at (board (snapshot e)) x = Some None
      \<and> status (snapshot e) = InProgress)"

definition autoPlay :: "TicTacToeEngine \<Rightarrow> EngineResult" where
  "autoPlay e =
     (case getAvailableMoves e of
        [] \<Rightarrow> (e, Inl NoMovesAvailable)
      | nextMove # _ \<Rightarrow> playMove e (Finite (of_int nextMove)))"

text \<open>Running a sequence of \<^verbatim>\<open>playMove\<close> calls, whatever each one returns.\<close>

fun playMoves :: "TicTacToeEngine \<Rightarrow> jsnumber list \<Rightarrow> TicTacToeEngine" where
  "playMoves e [] = e"
| "playMoves e (x # xs) = playMoves (fst (playMove e x)) xs"

section \<open>Notions the properties are stated with\<close>

text \<open>
  The engine invariant the constructor establishes and every method keeps: the size is at
  least three, \<^verbatim>\<open>totalCells\<close> is its square, and the board has that many cells.
\<close>

definition engine_ok :: "TicTacToeEngine \<Rightarrow> bool" where
  "engine_ok e =
     (3 \<le> boardSize e \<and> totalCells e = boardSize e * boardSize e
      \<and> length (board (snapshot e)) = totalCells e)"

text \<open>A number that is an integer in \<open>[0, n)\<close>.\<close>

definition in_range :: "jsnumber \<Rightarrow> nat \<Rightarrow> bool" where
  "in_range x n = (isInteger x \<and> num_ge x 0 \<and> num_lt x n)"

text \<open>
  Sequences of \<^verbatim>\<open>reset\<close> and \<^verbatim>\<open>playMove\<close> calls that all succeed: the run is \<open>None\<close>
  as soon as one call throws.
\<close>

datatype EngineOp = Reset TicTacToePlayer | Play jsnumber

fun run_ops :: "TicTacToeEngine \<Rightarrow> EngineOp list \<Rightarrow> TicTacToeEngine option" where
  "run_ops e [] = Some e"
| "run_ops e (Reset p # ops) =
     (case reset e p of
        (e', Inr _) \<Rightarrow> run_ops e' ops
      | (_, Inl _) \<Rightarrow> None)"
| "run_ops e (Play x # ops) =
     (case playMove e x of
        (e', Inr _) \<Rightarrow> run_ops e' ops
      | (_, Inl _) \<Rightarrow> None)"

text \<open>The number of non-empty cells, and the agreement of the three counts.\<close>

definition occupied :: "TicTacToeBoard \<Rightarrow> nat" where
  "occupied b = length (filter (\<lambda>cell. cell \<noteq> None) b)"

definition counts_agree :: "TicTacToeSnapshot \<Rightarrow> bool" where
  "counts_agree s =
     (moveCount s = int (length (history s)) \<and> length (history s) = occupied (board s))"

section \<open>The engine over a store of objects\<close>

text \<open>
  Arrays and objects are mutable and passed by reference. To say which of them a returned
  snapshot shares with the engine, the same methods are written over a store: a list of
  objects addressed by position, where allocation appends. A snapshot object holds
  references to its board array, its history array and (when present) its winning-line
  array; a history array holds references to move objects. A lookup is \<open>None\<close> when the
  reference does not hold an object of the expected kind, which well-typed code never meets.
\<close>

type_synonym ref = nat

record SnapshotObj =
  board_ref :: ref
  obj_status :: TicTacToeStatus
  obj_currentPlayer :: TicTacToePlayer
  obj_winner :: "TicTacToePlayer option"
  winningLine_ref :: "ref option"
  obj_moveCount :: int
  history_ref :: ref

datatype obj =
    CellArray TicTacToeBoard
  | MoveArray "ref list"
  | MoveObj TicTacToeMove
  | NumArray "nat list"
  | SnapObj SnapshotObj

type_synonym heap = "obj list"

definition alloc :: "heap \<Rightarrow> obj \<Rightarrow> ref \<times> heap" where
  "alloc h v = (length h, h @ [v])"

definition deref :: "heap \<Rightarrow> ref \<Rightarrow> obj option" where
  "deref h r = (if r < length h then Some (h ! r) else None)"

definition get_cells :: "heap \<Rightarrow> ref \<Rightarrow> TicTacToeBoard option" where
  "get_cells h r = (case deref h r of Some (CellArray b) \<Rightarrow> Some b | _ \<Rightarrow> None)"

definition get_moves :: "heap \<Rightarrow> ref \<Rightarrow> ref list option" where
  "get_moves h r = (case deref h r of Some (MoveArray ms) \<Rightarrow> Some ms | _ \<Rightarrow> None)"

definition get_move :: "heap \<Rightarrow> ref \<Rightarrow> TicTacToeMove option" where
  "get_move h r = (case deref h r of Some (MoveObj m) \<Rightarrow> Some m | _ \<Rightarrow> None)"

definition get_nums :: "heap \<Rightarrow> ref \<Rightarrow> nat list option" where
  "get_nums h r = (case deref h r of Some (NumArray ns) \<Rightarrow> Some ns | _ \<Rightarrow> None)"

definition get_snap :: "heap \<Rightarrow> ref \<Rightarrow> SnapshotObj option" where
  "get_snap h r = (case deref h r of Some (SnapObj s) \<Rightarrow> Some s | _ \<Rightarrow> None)"

text \<open>The snapshot value an object denotes in a store: every reference followed.\<close>

definition read_line :: "heap \<Rightarrow> ref option \<Rightarrow> nat list option option" where
  "read_line h lr = (case lr of None \<Rightarrow> Some None | Some r \<Rightarrow> map_option Some (get_nums h r))"

definition read_snapshot :: "heap \<Rightarrow> ref \<Rightarrow> TicTacToeSnapshot option" where
  "read_snapshot h r = do {
     so \<leftarrow> get_snap h r;
     b \<leftarrow> get_cells h (board_ref so);
     ms \<leftarrow> get_moves h (history_ref so);
     hs \<leftarrow> those (map (get_move h) ms);
     wl \<leftarrow> read_line h (winningLine_ref so);
     Some \<lparr> board = b,
            status = obj_status so,
            currentPlayer = obj_currentPlayer so,
            winner = obj_winner so,
            winningLine = wl,
            moveCount = obj_moveCount so,
            history = hs \<rparr>
   }"

record EngineObj =
  eng_boardSize :: nat
  eng_totalCells :: nat
  snapshot_ref :: ref

definition engine_value :: "EngineObj \<Rightarrow> TicTacToeSnapshot \<Rightarrow> TicTacToeEngine" where
  "engine_value e s =
     \<lparr> boardSize = eng_boardSize e, totalCells = eng_totalCells e, snapshot = s \<rparr>"

type_synonym HeapResult = "(heap \<times> EngineObj \<times> (EngineError + ref)) option"

definition createEmptySnapshot_h :: "heap \<Rightarrow> nat \<Rightarrow> TicTacToePlayer \<Rightarrow> ref \<times> heap" where
  "createEmptySnapshot_h h cells firstPlayer =
     (let (rb, h1) = alloc h (CellArray (replicate cells None));
          (rh, h2) = alloc h1 (MoveArray [])
      in alloc h2 (SnapObj
           \<lparr> board_ref = rb,
             obj_status = InProgress,
             obj_currentPlayer = firstPlayer,
             obj_winner = None,
             winningLine_ref = None,
             obj_moveCount = 0,
             history_ref = rh \<rparr>))"

definition new_engine_h :: "heap \<Rightarrow> nat \<Rightarrow> TicTacToePlayer \<Rightarrow> EngineError + (heap \<times> EngineObj)" where
  "new_engine_h h n firstPlayer =
     (if n < 3 then Inl InvalidBoardSize
      else if 2 ^ 32 - 1 < int (n * n) then Inl InvalidArrayLength
      else
        (let (r, h') = createEmptySnapshot_h h (n * n) firstPlayer
         in Inr (h', \<lparr> eng_boardSize = n, eng_totalCells = n * n, snapshot_ref = r \<rparr>)))"

text \<open>
  \<^verbatim>\<open>{ ...this.snapshot, board: [...this.snapshot.board], history: [...this.snapshot.history] }\<close>:
  a new object and two new arrays; the spread copies every other field as it is, so the
  \<^verbatim>\<open>winningLine\<close> reference is copied, and the new history array holds the same move
  references.
\<close>

definition cloneSnapshot_h :: "heap \<Rightarrow> EngineObj \<Rightarrow> (ref \<times> heap) option" where
  "cloneSnapshot_h h e = do {
     so \<leftarrow> get_snap h (snapshot_ref e);
     b \<leftarrow> get_cells h (board_ref so);
     ms \<leftarrow> get_moves h (history_ref so);
     let (rb, h1) = alloc h (CellArray b);
         (rh, h2) = alloc h1 (MoveArray ms)
     in Some (alloc h2 (SnapObj (so\<lparr> board_ref := rb, history_ref := rh \<rparr>)))
   }"

definition returning_clone :: "heap \<Rightarrow> EngineObj \<Rightarrow> HeapResult" where
  "returning_clone h e = do {
     (r, h') \<leftarrow> cloneSnapshot_h h e;
     Some (h', e, Inr r)
   }"

definition getSnapshot_h :: "heap \<Rightarrow> EngineObj \<Rightarrow> HeapResult" where
  "getSnapshot_h h e = returning_clone h e"

definition reset_h :: "heap \<Rightarrow> EngineObj \<Rightarrow> TicTacToePlayer \<Rightarrow> HeapResult" where
  "reset_h h e firstPlayer =
     (let (r, h') = createEmptySnapshot_h h (eng_totalCells e) firstPlayer
      in returning_clone h' (e\<lparr> snapshot_ref := r \<rparr>))"

definition loadSnapshot_h :: "heap \<Rightarrow> EngineObj \<Rightarrow> ref \<Rightarrow> HeapResult" where
  "loadSnapshot_h h e ext = do {
     so \<leftarrow> get_snap h ext;
     b \<leftarrow> get_cells h (board_ref so);
     ms \<leftarrow> get_moves h (history_ref so);
     if length b \<noteq> eng_totalCells e then Some (h, e, Inl SizeMismatch)
     else
       (let (rb, h1) = alloc h (CellArray b);
            (rh, h2) = alloc h1 (MoveArray ms);
            (r, h3) = alloc h2 (SnapObj (so\<lparr> board_ref := rb, history_ref := rh \<rparr>))
        in returning_clone h3 (e\<lparr> snapshot_ref := r \<rparr>))
   }"

text \<open>
  \<^verbatim>\<open>computeWinningLines\<close> allocates one array per line; \<^verbatim>\<open>evaluateBoard\<close> returns the
  reference of the first winning one.
\<close>

fun scan_lines_h ::
  "TicTacToeBoard \<Rightarrow> (ref \<times> nat list) list \<Rightarrow> (TicTacToePlayer \<times> ref) option" where
  "scan_lines_h b [] = None"
| "scan_lines_h b ((r, line) # rest) =
     (case line_winner b line of
        Some p \<Rightarrow> Some (p, r)
      | None \<Rightarrow> scan_lines_h b rest)"

record StatusResultObj =
  resobj_status :: TicTacToeStatus
  resobj_winner :: "TicTacToePlayer option"
  resobj_winningLine :: "ref option"

definition computeWinningLines_h :: "heap \<Rightarrow> nat \<Rightarrow> (ref \<times> nat list) list \<times> heap" where
  "computeWinningLines_h h n =
     (let lines = computeWinningLines n
      in (zip [length h..<length h + length lines] lines, h @ map NumArray lines))"

definition evaluateBoard_h :: "heap \<Rightarrow> EngineObj \<Rightarrow> TicTacToeBoard \<Rightarrow> StatusResultObj \<times> heap" where
  "evaluateBoard_h h e b =
     (let (winningLines, h') = computeWinningLines_h h (eng_boardSize e)
      in (case scan_lines_h b winningLines of
            Some (p, r) \<Rightarrow>
              \<lparr> resobj_status = Won, resobj_winner = Some p, resobj_winningLine = Some r \<rparr>
          | None \<Rightarrow>
              (if list_all (\<lambda>cell. cell \<noteq> None) b
               then \<lparr> resobj_status = Draw, resobj_winner = None, resobj_winningLine = None \<rparr>
               else \<lparr> resobj_status = InProgress, resobj_winner = None,
                      resobj_winningLine = None \<rparr>),
          h'))"

definition playMove_h :: "heap \<Rightarrow> EngineObj \<Rightarrow> jsnumber \<Rightarrow> HeapResult" where
  "playMove_h h e x = do {
     s \<leftarrow> read_snapshot h (snapshot_ref e);
     so \<leftarrow> get_snap h (snapshot_ref e);
     ms \<leftarrow> get_moves h (history_ref so);
     (case assertMoveIsAllowed (engine_value e s) x of
        Some err \<Rightarrow> Some (h, e, Inl err)
      | None \<Rightarrow>
          (let b = (board s)[to_index x := Some (currentPlayer s)];
               (rb, h1) = alloc h (CellArray b);
               (rm, h2) = alloc h1 (MoveObj \<lparr> index = to_index x, player = currentPlayer s \<rparr>);
               (rh, h3) = alloc h2 (MoveArray (ms @ [rm]));
               mc = round_to_double (moveCount s + 1);
               (statusResult, h4) = evaluateBoard_h h3 e b;
               nextPlayer =
                 (if resobj_status statusResult = InProgress
                  then togglePlayer (currentPlayer s)
                  else currentPlayer s);
               (r, h5) = alloc h4 (SnapObj
                  \<lparr> board_ref = rb,
                    obj_status = resobj_status statusResult,
                    obj_currentPlayer = nextPlayer,
                    obj_winner = resobj_winner statusResult,
                    winningLine_ref = resobj_winningLine statusResult,
                    obj_moveCount = mc,
                    history_ref = rh \<rparr>)
           in returning_clone h5 (e\<lparr> snapshot_ref := r \<rparr>)))
   }"

fun playMoves_h :: "heap \<Rightarrow> EngineObj \<Rightarrow> jsnumber list \<Rightarrow> (heap \<times> EngineObj) option" where
  "playMoves_h h e [] = Some (h, e)"
| "playMoves_h h e (x # xs) = do {
     (h', e', _) \<leftarrow> playMove_h h e x;
     playMoves_h h' e' xs
   }"

text \<open>
  What a caller holding a reference can do: \<^verbatim>\<open>line[i] = v\<close> on a number array and
  \<^verbatim>\<open>move.index = v\<close> on a move object.
\<close>

definition store_num :: "heap \<Rightarrow> ref \<Rightarrow> nat \<Rightarrow> nat \<Rightarrow> heap option" where
  "store_num h r i v =
     (case get_nums h r of
        Some ns \<Rightarrow> if i < length ns then Some (h[r := NumArray (ns[i := v])]) else None
      | None \<Rightarrow> None)"

definition store_move_index :: "heap \<Rightarrow> ref \<Rightarrow> nat \<Rightarrow> heap option" where
  "store_move_index h r v =
     (case get_move h r of
        Some m \<Rightarrow> Some (h[r := MoveObj (m\<lparr> index := v \<rparr>)])
      | None \<Rightarrow> None)"

section \<open>Concrete engines\<close>

text \<open>
  The engine \<^verbatim>\<open>new TicTacToeEngine()\<close> builds, and the engines it becomes after one move,
  after a win of X on the first column, and after a draw.
\<close>

definition engine3 :: TicTacToeEngine where
  "engine3 = \<lparr> boardSize = 3, totalCells = 9, snapshot = createEmptySnapshot 9 PlayerX \<rparr>"

definition engine3_one :: TicTacToeEngine where
  "engine3_one = playMoves engine3 [Finite 4]"

definition engine3_won :: TicTacToeEngine where
  "engine3_won = playMoves engine3 (map of_index [0, 1, 3, 4, 6])"


definition engine3_draw :: TicTacToeEngine where
  "engine3_draw = playMoves engine3 (map of_index [0, 1, 2, 4, 3, 5, 7, 6, 8])"

section \<open>Basic facts\<close>

lemma cloneSnapshot_id: "cloneSnapshot e = snapshot e"
  by (simp add: cloneSnapshot_def)

lemma getSnapshot_id: "getSnapshot e = snapshot e"
  by (simp add: getSnapshot_def cloneSnapshot_def)

lemma range_check: "(\<not> isInteger x \<or> num_lt x 0 \<or> num_ge x n) = (\<not> in_range x n)"
  by (cases x) (auto simp: in_range_def)


lemma in_range_of_index: "in_range (of_index k) n = (k < n)"
  by (simp add: in_range_def of_index_def)

lemma to_index_of_index: "to_index (of_index k) = k"
  by (simp add: of_index_def)

lemma board_at_in_range:
  "in_range x n \<Longrightarrow> board_at b x = cell_at b (to_index x)"
  by (simp add: board_at_def in_range_def)

lemma assert_unfold:
  "assertMoveIsAllowed e x =
     (if status (snapshot e) \<noteq> InProgress then Some GameNotInProgress
      else if \<not> in_range x (totalCells e) then Some IndexOutOfRange
      else if board_at (board (snapshot e)) x \<noteq> Some None then Some CellOccupied
      else None)"
  unfolding assertMoveIsAllowed_def range_check ..

lemma assert_ok_iff:
  "assertMoveIsAllowed e x = None \<longleftrightarrow>
     status (snapshot e) = InProgress \<and> in_range x (totalCells e)
     \<and> board_at (board (snapshot e)) x = Some None"
  by (simp add: assert_unfold)

lemma round_to_double_exact: "\<bar>z\<bar> \<le> 2 ^ 53 \<Longrightarrow> round_to_double z = z"
  by (simp add: round_to_double_def)

lemma playMove_fail:
  "assertMoveIsAllowed e x = Some err \<Longrightarrow> playMove e x = (e, Inl err)"
  by (simp add: playMove_def)

lemma playMove_ok:
  "assertMoveIsAllowed e x = None \<Longrightarrow>
     playMove e x = (place_mark e (to_index x), Inr (snapshot (place_mark e (to_index x))))"
  by (simp add: playMove_def place_mark_def Let_def cloneSnapshot_def)

subsection \<open>The engine invariant\<close>

lemma engine_ok_new: "new_engine n p = Inr e \<Longrightarrow> engine_ok e"
  by (auto simp: new_engine_def engine_ok_def createEmptySnapshot_def split: if_splits)

lemma new_engine_cells:
  assumes "new_engine n p = Inr e"
  shows "totalCells e < 2 ^ 32"
proof -
  from assms have t: "totalCells e = n * n" and b: "\<not> 2 ^ 32 - 1 < int (n * n)"
    by (auto simp: new_engine_def simp del: of_nat_mult split: if_splits)
  from b have "int (n * n) < int (2 ^ 32)"
    by (simp del: of_nat_mult)
  then have "n * n < 2 ^ 32"
    by (simp only: of_nat_less_iff)
  with t show ?thesis by simp
qed

lemma engine_ok_reset: "engine_ok e \<Longrightarrow> engine_ok (fst (reset e p))"
  by (simp add: reset_def engine_ok_def createEmptySnapshot_def Let_def)

lemma engine_ok_loadSnapshot: "engine_ok e \<Longrightarrow> engine_ok (fst (loadSnapshot e s))"
  by (simp add: loadSnapshot_def engine_ok_def Let_def)

lemma engine_ok_place_mark: "engine_ok e \<Longrightarrow> engine_ok (place_mark e k)"
  by (simp add: place_mark_def engine_ok_def Let_def)

lemma engine_ok_playMove: "engine_ok e \<Longrightarrow> engine_ok (fst (playMove e x))"
  by (cases "assertMoveIsAllowed e x")
     (simp_all add: playMove_ok playMove_fail engine_ok_place_mark)

lemma engine_ok_engine3: "engine_ok engine3"
  by (simp add: engine3_def engine_ok_def createEmptySnapshot_def)

lemma engine_ok_playMoves: "engine_ok e \<Longrightarrow> engine_ok (playMoves e xs)"
  by (induction xs arbitrary: e) (simp_all add: engine_ok_playMove)


lemma engine_ok_engine3_won: "engine_ok engine3_won"
  unfolding engine3_won_def by (rule engine_ok_playMoves) (rule engine_ok_engine3)

section \<open>The board evaluator\<close>

text \<open>
  Every winning line has \<open>n\<close> indices, all inside the board; a won result names a line of
  \<^verbatim>\<open>computeWinningLines\<close> whose first three cells hold the winner's mark, which on a
  3\<times>3 board is the whole line.
\<close>

lemma computeWinningLines_length:
  "line \<in> set (computeWinningLines n) \<Longrightarrow> length line = n"
  by (auto simp: computeWinningLines_def)

lemma row_bound: "r < n \<Longrightarrow> c < n \<Longrightarrow> r * n + c < n * (n::nat)"
proof -
  assume a: "r < n" "c < n"
  then have "r * n + c < r * n + n" by simp
  also have "\<dots> = Suc r * n" by simp
  also from a have "\<dots> \<le> n * n" by (metis Suc_leI mult_le_mono1)
  finally show ?thesis .
qed

lemma diag_bound: "k < n \<Longrightarrow> k * (n + 1) < n * (n::nat)"
  using row_bound [of k n k] by (simp add: algebra_simps)

lemma anti_bound: "k < n \<Longrightarrow> (k + 1) * (n - 1) < n * (n::nat)"
proof -
  assume a: "k < n"
  then have "(k + 1) * (n - 1) \<le> n * (n - 1)" by (intro mult_le_mono1) simp
  also from a have "\<dots> < n * n" by simp
  finally show ?thesis .
qed

lemma computeWinningLines_cases:
  assumes "line \<in> set (computeWinningLines n)"
  shows "(\<exists>r<n. line = map (\<lambda>idx. r * n + idx) [0..<n])
    \<or> (\<exists>c<n. line = map (\<lambda>idx. idx * n + c) [0..<n])
    \<or> line = map (\<lambda>idx. idx * (n + 1)) [0..<n]
    \<or> line = map (\<lambda>idx. (idx + 1) * (n - 1)) [0..<n]"
  using assms unfolding computeWinningLines_def set_append set_map Un_iff image_iff
  by (simp only: set_upt atLeastLessThan_iff list.set insert_iff empty_iff simp_thms Bex_def
      le0)

lemma computeWinningLines_in_board:
  assumes "line \<in> set (computeWinningLines n)" and "i \<in> set line"
  shows "i < n * n"
proof -
  from assms(2) obtain k where k: "k < length line" "i = line ! k"
    by (auto simp: in_set_conv_nth)
  from computeWinningLines_cases [OF assms(1)] show ?thesis
  proof (elim disjE exE conjE)
    fix r assume "r < n" "line = map (\<lambda>idx. r * n + idx) [0..<n]"
    with k show ?thesis by (simp add: row_bound)
  next
    fix c assume "c < n" "line = map (\<lambda>idx. idx * n + c) [0..<n]"
    with k show ?thesis by (simp add: row_bound)
  next
    assume "line = map (\<lambda>idx. idx * (n + 1)) [0..<n]"
    with k show ?thesis using diag_bound [of k n] by simp
  next
    assume "line = map (\<lambda>idx. (idx + 1) * (n - 1)) [0..<n]"
    with k show ?thesis using anti_bound [of k n] by simp
  qed
qed

lemma scan_lines_Some:
  "scan_lines b ls = Some (p, line) \<Longrightarrow> line \<in> set ls \<and> line_winner b line = Some p"
  by (induction ls) (auto split: option.splits)

lemma line_winner_first_three:
  assumes "line_winner b line = Some p" and "k < 3"
  shows "k < length line \<and> cell_at b (line ! k) = Some (Some p)"
proof -
  have c: "cell_of b (line_elem line j) = Some (Some p)
      \<Longrightarrow> j < length line \<and> cell_at b (line ! j) = Some (Some p)" for j
    by (cases "j < length line") (simp_all add: line_elem_def)
  from assms(1) have "cell_of b (line_elem line 0) = Some (Some p)"
    "cell_of b (line_elem line 1) = Some (Some p)"
    "cell_of b (line_elem line 2) = Some (Some p)"
    by (auto simp: line_winner_def split: option.splits if_splits)
  moreover from assms(2) have "k = 0 \<or> k = 1 \<or> k = 2" by arith
  ultimately show ?thesis using c by blast
qed

lemma evaluateBoard_won:
  assumes "res_status (evaluateBoard e b) = Won"
  shows "\<exists>p line. res_winner (evaluateBoard e b) = Some p
    \<and> res_winningLine (evaluateBoard e b) = Some line
    \<and> line \<in> set (computeWinningLines (boardSize e))
    \<and> line_winner b line = Some p"
proof (cases "scan_lines b (computeWinningLines (boardSize e))")
  case None
  with assms show ?thesis by (simp add: evaluateBoard_def split: if_splits)
next
  case (Some a)
  then obtain p line where "scan_lines b (computeWinningLines (boardSize e)) = Some (p, line)"
    by (cases a) simp
  then show ?thesis using scan_lines_Some [of b _ p line]
    by (simp add: evaluateBoard_def)
qed

lemma evaluateBoard_won_size3:
  assumes "boardSize e = 3" and "res_status (evaluateBoard e b) = Won"
  shows "\<exists>p line. res_winner (evaluateBoard e b) = Some p
    \<and> res_winningLine (evaluateBoard e b) = Some line
    \<and> line \<in> set (computeWinningLines 3)
    \<and> (\<forall>i \<in> set line. cell_at b i = Some (Some p))"
proof -
  from evaluateBoard_won [OF assms(2)] assms(1)
  obtain p line where w: "res_winner (evaluateBoard e b) = Some p"
    "res_winningLine (evaluateBoard e b) = Some line"
    "line \<in> set (computeWinningLines 3)" "line_winner b line = Some p"
    by auto
  from w(3) have len: "length line = 3" by (rule computeWinningLines_length)
  have "cell_at b i = Some (Some p)" if "i \<in> set line" for i
  proof -
    from that obtain k where "k < length line" "line ! k = i"
      by (auto simp: in_set_conv_nth)
    with len line_winner_first_three [OF w(4), of k] show ?thesis by simp
  qed
  with w show ?thesis by blast
qed

text \<open>
  C1. The claim: for every board size \<open>n \<ge> 3\<close>, a snapshot with status Won has a winning
  line among the rows, columns and diagonals whose \<open>n\<close> cells all equal the winner's mark.
  \<^verbatim>\<open>evaluateBoard\<close> destructures only \<^verbatim>\<open>[a, b, c]\<close> from a line of \<open>n\<close> indices, so on a
  4\<times>4 board the moves 0, 4, 1, 5, 2 end the game: X holds cells 0, 1, 2, the snapshot
  returned by the last \<^verbatim>\<open>playMove\<close> is Won for X with winning line \<open>[0, 1, 2, 3]\<close>, and cell
  3 of that line is empty.
\<close>

theorem won_line_not_full_on_size4:
  "(case new_engine 4 PlayerX of
      Inl err \<Rightarrow> False
    | Inr e \<Rightarrow>
        (case playMove (playMoves e (map of_index [0, 4, 1, 5])) (Finite 2) of
           (e', Inr s) \<Rightarrow>
             status s = Won \<and> winner s = Some PlayerX \<and> winningLine s = Some [0, 1, 2, 3]
             \<and> cell_at (board s) 3 = Some None \<and> getSnapshot e' = s
         | (e', Inl err) \<Rightarrow> False))"
  by code_simp

section \<open>Playing a move\<close>




text \<open>
  C4. A \<^verbatim>\<open>playMove\<close> call whose index is not an integer in range, or whose cell holds a
  mark, fails, and the engine and the snapshot \<^verbatim>\<open>getSnapshot\<close> returns are afterwards what
  they were before the call.
\<close>

theorem playMove_failure_keeps_snapshot:
  assumes "\<not> in_range x (totalCells e) \<or> (\<exists>p. board_at (board (snapshot e)) x = Some (Some p))"
  shows "(\<exists>err. snd (playMove e x) = Inl err)
    \<and> fst (playMove e x) = e
    \<and> getSnapshot (fst (playMove e x)) = getSnapshot e"
proof -
  from assms have "assertMoveIsAllowed e x \<noteq> None"
    by (auto simp: assert_ok_iff)
  then obtain err where "assertMoveIsAllowed e x = Some err" by auto
  then have "playMove e x = (e, Inl err)" by (rule playMove_fail)
  then show ?thesis by simp
qed

theorem playMove_failure_keeps_snapshot_witness:
  "\<not> in_range (Finite 9) (totalCells engine3)
   \<and> snd (playMove engine3 (Finite 9)) = Inl IndexOutOfRange
   \<and> getSnapshot (fst (playMove engine3 (Finite 9))) = getSnapshot engine3
   \<and> board_at (board (snapshot engine3_one)) (Finite 4) = Some (Some PlayerX)
   \<and> snd (playMove engine3_one (Finite 4)) = Inl CellOccupied
   \<and> getSnapshot (fst (playMove engine3_one (Finite 4))) = getSnapshot engine3_one"
proof -
  have a: "\<not> in_range (Finite 9) (totalCells engine3)"
    by code_simp
  have b: "board_at (board (snapshot engine3_one)) (Finite 4) = Some (Some PlayerX)"
    by code_simp
  have c: "snd (playMove engine3 (Finite 9)) = Inl IndexOutOfRange"
    by code_simp
  have d: "snd (playMove engine3_one (Finite 4)) = Inl CellOccupied"
    by code_simp
  from playMove_failure_keeps_snapshot [of "Finite 9" engine3] a
  have "getSnapshot (fst (playMove engine3 (Finite 9))) = getSnapshot engine3"
    by blast
  moreover from playMove_failure_keeps_snapshot [of "Finite 4" engine3_one] b
  have "getSnapshot (fst (playMove engine3_one (Finite 4))) = getSnapshot engine3_one"
    by blast
  ultimately show ?thesis using a b c d by blast
qed

subsection \<open>Finished games\<close>

lemma finished_playMove:
  "status (snapshot e) = Won \<or> status (snapshot e) = Draw
     \<Longrightarrow> playMove e x = (e, Inl GameNotInProgress)"
  by (rule playMove_fail) (auto simp: assert_unfold)

lemma finished_playMoves:
  "status (snapshot e) = Won \<or> status (snapshot e) = Draw \<Longrightarrow> playMoves e xs = e"
  by (induction xs) (simp_all add: finished_playMove)

text \<open>
  C5. Once the status is Won or Draw, every \<^verbatim>\<open>playMove\<close> fails with \<open>GameNotInProgress\<close>
  and leaves the engine, hence the board, unchanged, and so does every sequence of
  \<^verbatim>\<open>playMove\<close> calls; \<^verbatim>\<open>reset\<close> re-enters InProgress, and \<^verbatim>\<open>loadSnapshot\<close> of a snapshot
  of the right size enters the status that snapshot carries.
\<close>

theorem finished_game_is_terminal:
  assumes "status (snapshot e) = Won \<or> status (snapshot e) = Draw"
  shows "playMove e x = (e, Inl GameNotInProgress)
    \<and> playMoves e xs = e
    \<and> status (snapshot (fst (reset e p))) = InProgress
    \<and> (length (board s) = totalCells e
         \<longrightarrow> status (snapshot (fst (loadSnapshot e s))) = status s)"
  using assms
  by (simp add: finished_playMove finished_playMoves reset_def loadSnapshot_def
      createEmptySnapshot_def Let_def)

theorem finished_game_is_terminal_witness:
  "status (snapshot engine3_won) = Won
   \<and> playMove engine3_won (Finite 2) = (engine3_won, Inl GameNotInProgress)
   \<and> playMoves engine3_won [Finite 2, Finite 5, Finite 7] = engine3_won
   \<and> status (snapshot (fst (reset engine3_won PlayerO))) = InProgress
   \<and> status (snapshot engine3_draw) = Draw
   \<and> playMove engine3_draw (Finite 0) = (engine3_draw, Inl GameNotInProgress)"
proof -
  have w: "status (snapshot engine3_won) = Won"
    by code_simp
  have d: "status (snapshot engine3_draw) = Draw"
    by code_simp
  from finished_game_is_terminal [of engine3_won "Finite 2" "[Finite 2, Finite 5, Finite 7]" PlayerO]
    finished_game_is_terminal [of engine3_draw "Finite 0"] w d
  show ?thesis by blast
qed

subsection \<open>canPlay\<close>

text \<open>
  C9. For every engine state and every number, integer or not, in range or not,
  \<^verbatim>\<open>canPlay\<close> is true exactly when \<^verbatim>\<open>playMove\<close> on that number returns a snapshot.
\<close>

theorem canPlay_iff_playMove_succeeds:
  "canPlay e x \<longleftrightarrow> (\<exists>s. snd (playMove e x) = Inr s)"
proof -
  have a: "canPlay e x \<longleftrightarrow> assertMoveIsAllowed e x = None"
    unfolding assert_ok_iff canPlay_def in_range_def board_at_def by auto
  show ?thesis
  proof (cases "assertMoveIsAllowed e x")
    case None
    then show ?thesis using a by (simp add: playMove_ok)
  next
    case (Some err)
    then show ?thesis using a by (simp add: playMove_fail)
  qed
qed

theorem canPlay_iff_playMove_succeeds_witness:
  "canPlay engine3 (Finite 4) \<and> (\<exists>s. snd (playMove engine3 (Finite 4)) = Inr s)
   \<and> \<not> canPlay engine3 (Finite (1 / 2)) \<and> \<not> (\<exists>s. snd (playMove engine3 (Finite (1 / 2))) = Inr s)
   \<and> \<not> canPlay engine3 NaN \<and> \<not> (\<exists>s. snd (playMove engine3 NaN) = Inr s)
   \<and> \<not> canPlay engine3_won (Finite 2) \<and> \<not> (\<exists>s. snd (playMove engine3_won (Finite 2)) = Inr s)"
proof -
  have "canPlay engine3 (Finite 4)" "\<not> canPlay engine3 (Finite (1 / 2))"
    "\<not> canPlay engine3 NaN" "\<not> canPlay engine3_won (Finite 2)"
    by code_simp+
  then show ?thesis
    using canPlay_iff_playMove_succeeds [of engine3 "Finite 4"]
      canPlay_iff_playMove_succeeds [of engine3 "Finite (1 / 2)"]
      canPlay_iff_playMove_succeeds [of engine3 NaN]
      canPlay_iff_playMove_succeeds [of engine3_won "Finite 2"]
    by blast
qed

section \<open>The three counts\<close>

lemma occupied_update:
  "i < length b \<Longrightarrow> b ! i = None \<Longrightarrow> occupied (b[i := Some p]) = Suc (occupied b)"
  unfolding occupied_def
proof (induction b arbitrary: i)
  case Nil
  then show ?case by simp
next
  case (Cons c cs)
  then show ?case by (cases i) auto
qed

lemma counts_agree_empty: "counts_agree (createEmptySnapshot n p)"
  by (simp add: counts_agree_def createEmptySnapshot_def occupied_def)

text \<open>
  The count of marks is at most the length of the board, an array length, so on an
  engine built by the constructor the sum \<^verbatim>\<open>moveCount + 1\<close> is exact.
\<close>

lemma counts_agree_playMove:
  assumes "counts_agree (snapshot e)" and "length (board (snapshot e)) < 2 ^ 32"
    and "playMove e x = (e', Inr s)"
  shows "counts_agree (snapshot e')"
proof (cases "assertMoveIsAllowed e x")
  case None
  then have ok: "in_range x (totalCells e)" "board_at (board (snapshot e)) x = Some None"
    by (simp_all add: assert_ok_iff)
  then have "cell_at (board (snapshot e)) (to_index x) = Some None"
    by (simp add: board_at_in_range)
  then have k: "to_index x < length (board (snapshot e))"
    "board (snapshot e) ! to_index x = None"
    by (auto simp: cell_at_def split: if_splits)
  have "occupied (board (snapshot e)) \<le> length (board (snapshot e))"
    by (simp add: occupied_def)
  with assms(1,2) have "moveCount (snapshot e) < 2 ^ 32" "0 \<le> moveCount (snapshot e)"
    by (simp_all add: counts_agree_def)
  then have "\<bar>moveCount (snapshot e) + 1\<bar> \<le> 2 ^ 53"
    by simp
  then have exact: "round_to_double (moveCount (snapshot e) + 1) = moveCount (snapshot e) + 1"
    by (rule round_to_double_exact)
  from None assms(3) have "e' = place_mark e (to_index x)"
    by (simp add: playMove_ok)
  with assms(1) k exact show ?thesis
    by (simp add: counts_agree_def place_mark_def Let_def occupied_update)
next
  case (Some err)
  with assms(3) show ?thesis by (simp add: playMove_fail)
qed

lemma totalCells_playMove: "totalCells (fst (playMove e x)) = totalCells e"
  by (cases "assertMoveIsAllowed e x")
     (simp_all add: playMove_ok playMove_fail place_mark_def Let_def)

lemma counts_agree_run_ops:
  "engine_ok e \<Longrightarrow> totalCells e < 2 ^ 32 \<Longrightarrow> counts_agree (snapshot e)
     \<Longrightarrow> run_ops e ops = Some e' \<Longrightarrow> counts_agree (snapshot e')"
proof (induction ops arbitrary: e)
  case Nil
  then show ?case by simp
next
  case (Cons op ops)
  show ?case
  proof (cases op)
    case (Reset p)
    let ?e = "fst (reset e p)"
    from Cons.prems(4) Reset have run: "run_ops ?e ops = Some e'"
      by (simp add: reset_def Let_def)
    have "engine_ok ?e" using Cons.prems(1) by (rule engine_ok_reset)
    moreover have "totalCells ?e < 2 ^ 32" using Cons.prems(2) by (simp add: reset_def Let_def)
    moreover have "counts_agree (snapshot ?e)"
      by (simp add: reset_def Let_def counts_agree_empty)
    ultimately show ?thesis using run by (rule Cons.IH)
  next
    case (Play x)
    with Cons.prems(4) obtain e1 s1 where pm: "playMove e x = (e1, Inr s1)"
      and run: "run_ops e1 ops = Some e'"
      by (auto split: prod.splits sum.splits)
    from Cons.prems(1,2) have len: "length (board (snapshot e)) < 2 ^ 32"
      by (simp add: engine_ok_def)
    have "engine_ok e1" using engine_ok_playMove [OF Cons.prems(1), of x] pm by simp
    moreover have "totalCells e1 < 2 ^ 32"
      using totalCells_playMove [of e x] pm Cons.prems(2) by simp
    moreover have "counts_agree (snapshot e1)"
      using Cons.prems(3) len pm by (rule counts_agree_playMove)
    ultimately show ?thesis using run by (rule Cons.IH)
  qed
qed

text \<open>
  C3. In every engine obtained from a fresh construction by a sequence of successful
  \<^verbatim>\<open>reset\<close> and \<^verbatim>\<open>playMove\<close> calls, \<^verbatim>\<open>moveCount\<close>, the length of the history and the
  number of non-empty cells of the board are equal.
\<close>

theorem counts_agree_reachable:
  assumes "new_engine n p = Inr e0" and "run_ops e0 ops = Some e"
  shows "moveCount (getSnapshot e) = int (length (history (getSnapshot e)))
    \<and> length (history (getSnapshot e)) = occupied (board (getSnapshot e))"
proof -
  from assms(1) have "counts_agree (snapshot e0)"
    by (auto simp: new_engine_def counts_agree_empty split: if_splits)
  with engine_ok_new [OF assms(1)] new_engine_cells [OF assms(1)]
  have "counts_agree (snapshot e)" using assms(2) by (rule counts_agree_run_ops)
  then show ?thesis by (simp add: counts_agree_def getSnapshot_id)
qed

theorem counts_agree_reachable_witness:
  "new_engine 3 PlayerX = Inr engine3
   \<and> (\<exists>e. run_ops engine3 [Play (Finite 4), Play (Finite 0), Reset PlayerO, Play (Finite 8)] = Some e
        \<and> moveCount (getSnapshot e) = 1
        \<and> moveCount (getSnapshot e) = int (length (history (getSnapshot e)))
        \<and> length (history (getSnapshot e)) = occupied (board (getSnapshot e)))"
proof -
  let ?ops = "[Play (Finite 4), Play (Finite 0), Reset PlayerO, Play (Finite 8)]"
  have n: "new_engine 3 PlayerX = Inr engine3"
    by (simp add: new_engine_def engine3_def)
  have "run_ops engine3 ?ops \<noteq> None"
    by code_simp
  then obtain e where r: "run_ops engine3 ?ops = Some e" by auto
  have m: "moveCount (getSnapshot (the (run_ops engine3 ?ops))) = 1"
    by code_simp
  from counts_agree_reachable [OF n r] n r m show ?thesis by simp
qed

section \<open>Loading a snapshot\<close>

text \<open>
  On snapshot values: \<^verbatim>\<open>loadSnapshot\<close> fails, with \<open>SizeMismatch\<close>, exactly when the board
  of the external snapshot does not have \<open>size\<^sup>2\<close> cells, and then leaves the engine as it
  was; otherwise it checks nothing else, replaces the engine's snapshot by the external
  one, whatever the earlier state was, and returns it.
\<close>

lemma loadSnapshot_contract:
  assumes "engine_ok e"
  shows "((\<exists>err. snd (loadSnapshot e s) = Inl err) \<longleftrightarrow> length (board s) \<noteq> boardSize e * boardSize e)
    \<and> (snd (loadSnapshot e s) = Inl SizeMismatch \<longleftrightarrow> length (board s) \<noteq> boardSize e * boardSize e)
    \<and> (length (board s) \<noteq> boardSize e * boardSize e \<longrightarrow> fst (loadSnapshot e s) = e)
    \<and> (length (board s) = boardSize e * boardSize e \<longrightarrow>
          loadSnapshot e s = (e\<lparr> snapshot := s \<rparr>, Inr s))"
  using assms by (auto simp: loadSnapshot_def engine_ok_def Let_def cloneSnapshot_def)

lemma loadSnapshot_contract_example:
  "engine_ok engine3
   \<and> length (board (createEmptySnapshot 16 PlayerX)) \<noteq> boardSize engine3 * boardSize engine3
   \<and> loadSnapshot engine3 (createEmptySnapshot 16 PlayerX) = (engine3, Inl SizeMismatch)
   \<and> length (board (snapshot engine3_won)) = boardSize engine3 * boardSize engine3
   \<and> loadSnapshot engine3 (snapshot engine3_won)
       = (engine3\<lparr> snapshot := snapshot engine3_won \<rparr>, Inr (snapshot engine3_won))"
proof -
  have a: "length (board (createEmptySnapshot 16 PlayerX)) \<noteq> boardSize engine3 * boardSize engine3"
    by code_simp
  have b: "length (board (snapshot engine3_won)) = boardSize engine3 * boardSize engine3"
    by code_simp
  from loadSnapshot_contract [OF engine_ok_engine3, of "createEmptySnapshot 16 PlayerX"] a
  have "loadSnapshot engine3 (createEmptySnapshot 16 PlayerX) = (engine3, Inl SizeMismatch)"
    by (metis prod.collapse)
  moreover from loadSnapshot_contract [OF engine_ok_engine3, of "snapshot engine3_won"] b
  have "loadSnapshot engine3 (snapshot engine3_won)
       = (engine3\<lparr> snapshot := snapshot engine3_won \<rparr>, Inr (snapshot engine3_won))"
    by blast
  ultimately show ?thesis using engine_ok_engine3 a b by blast
qed

text \<open>
  C7. For an engine state and a fresh engine of the same size, \<^verbatim>\<open>loadSnapshot\<close> of the
  engine's \<^verbatim>\<open>getSnapshot\<close> on the fresh engine succeeds; the snapshot it returns, the
  snapshot the fresh engine then holds and the one its \<^verbatim>\<open>getSnapshot\<close> returns are all the
  snapshot the original engine holds: board, status, current player, winner, winning
  line, move count and history.
\<close>

theorem loadSnapshot_roundtrip:
  assumes "engine_ok e" and "new_engine (boardSize e) p = Inr fresh"
  shows "loadSnapshot fresh (getSnapshot e) = (fresh\<lparr> snapshot := snapshot e \<rparr>, Inr (snapshot e))
    \<and> snapshot (fst (loadSnapshot fresh (getSnapshot e))) = snapshot e
    \<and> getSnapshot (fst (loadSnapshot fresh (getSnapshot e))) = snapshot e
    \<and> snd (loadSnapshot fresh (getSnapshot e)) = Inr (getSnapshot e)
    \<and> getSnapshot (fst (loadSnapshot fresh (getSnapshot e))) = getSnapshot e"
  using assms
  by (auto simp: loadSnapshot_def engine_ok_def Let_def cloneSnapshot_def getSnapshot_def
      new_engine_def split: if_splits)

text \<open>
  The round trip of a won 3\<times>3 game into a fresh engine that starts with O: the fresh
  engine holds the board, the history and the win of the original.
\<close>

theorem loadSnapshot_roundtrip_witness:
  "engine_ok engine3_won
   \<and> new_engine (boardSize engine3_won) PlayerO
       = Inr (engine3\<lparr> snapshot := createEmptySnapshot 9 PlayerO \<rparr>)
   \<and> loadSnapshot (engine3\<lparr> snapshot := createEmptySnapshot 9 PlayerO \<rparr>)
         (getSnapshot engine3_won)
       = (engine3\<lparr> snapshot := snapshot engine3_won \<rparr>, Inr (snapshot engine3_won))
   \<and> snapshot (fst (loadSnapshot (engine3\<lparr> snapshot := createEmptySnapshot 9 PlayerO \<rparr>)
         (getSnapshot engine3_won)))
       = \<lparr> board = [Some PlayerX, Some PlayerO, None, Some PlayerX, Some PlayerO, None,
                    Some PlayerX, None, None],
           status = Won,
           currentPlayer = PlayerX,
           winner = Some PlayerX,
           winningLine = Some [0, 3, 6],
           moveCount = 5,
           history = [\<lparr> index = 0, player = PlayerX \<rparr>, \<lparr> index = 1, player = PlayerO \<rparr>,
                      \<lparr> index = 3, player = PlayerX \<rparr>, \<lparr> index = 4, player = PlayerO \<rparr>,
                      \<lparr> index = 6, player = PlayerX \<rparr>] \<rparr>"
proof -
  let ?fresh = "engine3\<lparr> snapshot := createEmptySnapshot 9 PlayerO \<rparr>"
  have n: "new_engine (boardSize engine3_won) PlayerO = Inr ?fresh"
    by code_simp
  have w: "snapshot engine3_won
       = \<lparr> board = [Some PlayerX, Some PlayerO, None, Some PlayerX, Some PlayerO, None,
                    Some PlayerX, None, None],
           status = Won,
           currentPlayer = PlayerX,
           winner = Some PlayerX,
           winningLine = Some [0, 3, 6],
           moveCount = 5,
           history = [\<lparr> index = 0, player = PlayerX \<rparr>, \<lparr> index = 1, player = PlayerO \<rparr>,
                      \<lparr> index = 3, player = PlayerX \<rparr>, \<lparr> index = 4, player = PlayerO \<rparr>,
                      \<lparr> index = 6, player = PlayerX \<rparr>] \<rparr>"
    by code_simp
  from loadSnapshot_roundtrip [OF engine_ok_engine3_won n]
  have "loadSnapshot ?fresh (getSnapshot engine3_won)
       = (engine3\<lparr> snapshot := snapshot engine3_won \<rparr>, Inr (snapshot engine3_won))"
    and "snapshot (fst (loadSnapshot ?fresh (getSnapshot engine3_won))) = snapshot engine3_won"
    by (simp_all add: engine3_def)
  with engine_ok_engine3_won n w show ?thesis by simp
qed

section \<open>Available moves and automatic play\<close>

lemma zip_upt_nth: "zip b [0..<length b] = map (\<lambda>i. (b ! i, i)) [0..<length b]"
  by (rule nth_equalityI) simp_all

lemma getAvailableMoves_eq:
  "getAvailableMoves e =
     map int (filter (\<lambda>i. board (snapshot e) ! i = None) [0..<length (board (snapshot e))])"
  unfolding getAvailableMoves_def zip_upt_nth
  by (simp add: filter_map comp_def)

lemma filter_upt_first:
  assumes "k < n" and "P k" and "\<forall>j<k. \<not> P j"
  shows "filter P [0..<n] = k # filter P [Suc k..<n]"
proof -
  from assms(1) have "[0..<n] = [0..<k] @ k # [Suc k..<n]"
    by (metis le_add1 less_imp_add_positive upt_add_eq_append upt_conv_Cons plus_nat.add_0)
  moreover from assms(3) have "filter P [0..<k] = []"
    by (simp add: filter_empty_conv)
  ultimately show ?thesis using assms(2) by simp
qed

text \<open>
  C8. \<^verbatim>\<open>getAvailableMoves\<close> returns exactly the indices of the empty cells, in ascending
  order. \<^verbatim>\<open>autoPlay\<close> fails with \<open>NoMovesAvailable\<close> when no cell is empty, and otherwise
  does what \<^verbatim>\<open>playMove\<close> does on the lowest index of an empty cell.
\<close>

theorem autoPlay_contract:
  "getAvailableMoves e =
     map int (filter (\<lambda>i. board (snapshot e) ! i = None) [0..<length (board (snapshot e))])
   \<and> sorted_wrt (<) (getAvailableMoves e)
   \<and> (list_all (\<lambda>cell. cell \<noteq> None) (board (snapshot e))
        \<longrightarrow> autoPlay e = (e, Inl NoMovesAvailable))
   \<and> (\<forall>k. k < length (board (snapshot e)) \<and> board (snapshot e) ! k = None
            \<and> (\<forall>j<k. board (snapshot e) ! j \<noteq> None)
        \<longrightarrow> autoPlay e = playMove e (of_index k))"
proof -
  let ?b = "board (snapshot e)"
  let ?P = "\<lambda>i. ?b ! i = None"
  have s: "sorted_wrt (<) (getAvailableMoves e)"
    unfolding getAvailableMoves_eq
    by (simp add: sorted_wrt_map sorted_wrt_filter)
  have n: "list_all (\<lambda>cell. cell \<noteq> None) ?b \<Longrightarrow> autoPlay e = (e, Inl NoMovesAvailable)"
  proof -
    assume "list_all (\<lambda>cell. cell \<noteq> None) ?b"
    then have "filter ?P [0..<length ?b] = []"
      by (auto simp: filter_empty_conv list_all_length)
    then show ?thesis by (simp add: autoPlay_def getAvailableMoves_eq)
  qed
  have f: "autoPlay e = playMove e (of_index k)"
    if "k < length ?b" "?b ! k = None" "\<forall>j<k. ?b ! j \<noteq> None" for k
  proof -
    from that have "filter ?P [0..<length ?b] = k # filter ?P [Suc k..<length ?b]"
      by (intro filter_upt_first) auto
    then show ?thesis by (simp add: autoPlay_def getAvailableMoves_eq of_index_def)
  qed
  show ?thesis using s n f by (simp add: getAvailableMoves_eq [symmetric]) 
qed

theorem autoPlay_contract_witness:
  "getAvailableMoves engine3_one = [0, 1, 2, 3, 5, 6, 7, 8]
   \<and> autoPlay engine3_one = playMove engine3_one (of_index 0)
   \<and> (case snd (autoPlay engine3_one) of
         Inr s \<Rightarrow> board s ! 0 = Some PlayerO
       | Inl err \<Rightarrow> False)
   \<and> list_all (\<lambda>cell. cell \<noteq> None) (board (snapshot engine3_draw))
   \<and> autoPlay engine3_draw = (engine3_draw, Inl NoMovesAvailable)"
proof -
  have g: "getAvailableMoves engine3_one = [0, 1, 2, 3, 5, 6, 7, 8]"
    by code_simp
  have z: "0 < length (board (snapshot engine3_one)) \<and> board (snapshot engine3_one) ! 0 = None"
    by code_simp
  have s: "(case snd (playMove engine3_one (of_index 0)) of
         Inr s \<Rightarrow> board s ! 0 = Some PlayerO
       | Inl err \<Rightarrow> False)"
    by code_simp
  have f: "list_all (\<lambda>cell. cell \<noteq> None) (board (snapshot engine3_draw))"
    by code_simp
  from autoPlay_contract [of engine3_one] z
  have a: "autoPlay engine3_one = playMove engine3_one (of_index 0)"
    by blast
  from autoPlay_contract [of engine3_draw] f
  have "autoPlay engine3_draw = (engine3_draw, Inl NoMovesAvailable)"
    by blast
  with g a s f show ?thesis by simp
qed

section \<open>What a returned snapshot shares with the engine\<close>

text \<open>
  The store engine and the value engine agree: after the same game, the snapshot the
  store engine's reference denotes is the value engine's snapshot.
\<close>

lemma store_engine_agrees_on_game:
  "(case new_engine_h [] 3 PlayerX of
      Inl err \<Rightarrow> False
    | Inr (h0, e0) \<Rightarrow>
        (case playMoves_h h0 e0 (map of_index [0, 3, 1, 4, 2]) of
           None \<Rightarrow> False
         | Some (h1, e1) \<Rightarrow>
             read_snapshot h1 (snapshot_ref e1)
               = Some (getSnapshot (playMoves engine3 (map of_index [0, 3, 1, 4, 2])))))"
  by code_simp

text \<open>
  \<^verbatim>\<open>cloneSnapshot\<close> returns a new object with new board and history arrays of the same
  contents; the winning-line reference is the engine's own.
\<close>

lemma cloneSnapshot_h_copies_arrays:
  assumes "cloneSnapshot_h h e = Some (r, h')"
  shows "\<exists>so si. get_snap h' r = Some so \<and> get_snap h (snapshot_ref e) = Some si
    \<and> length h \<le> r \<and> length h \<le> board_ref so \<and> length h \<le> history_ref so
    \<and> get_cells h' (board_ref so) = get_cells h (board_ref si)
    \<and> get_moves h' (history_ref so) = get_moves h (history_ref si)
    \<and> winningLine_ref so = winningLine_ref si"
proof -
  from assms obtain si b ms where si: "get_snap h (snapshot_ref e) = Some si"
    and b: "get_cells h (board_ref si) = Some b"
    and ms: "get_moves h (history_ref si) = Some ms"
    and r: "r = length h + 2"
    and h': "h' = h @ [CellArray b, MoveArray ms,
        SnapObj (si\<lparr> board_ref := length h, history_ref := length h + 1 \<rparr>)]"
    by (auto simp: cloneSnapshot_h_def alloc_def split: Option.bind_splits)
  let ?so = "si\<lparr> board_ref := length h, history_ref := length h + 1 \<rparr>"
  have "get_snap h' r = Some ?so"
    by (simp add: get_snap_def deref_def r h' nth_append)
  moreover have "get_cells h' (board_ref ?so) = Some b"
    by (simp add: get_cells_def deref_def h' nth_append)
  moreover have "get_moves h' (history_ref ?so) = Some ms"
    by (simp add: get_moves_def deref_def h' nth_append)
  ultimately show ?thesis using si b ms r by simp
qed

text \<open>
  C10. The claim: a snapshot returned to a caller shares no mutable reference with the
  engine's state, so that no mutation of it, its board, its history or its winning line
  changes that state. On a 3\<times>3 engine, after the moves 0, 3, 1, 4, the move 2 wins for X and
  returns a snapshot object distinct from the engine's. Its winning-line array is the
  engine's: after the caller stores 8 at position 0 of it, the engine's snapshot has the
  winning line \<open>[8, 1, 2]\<close> instead of \<open>[0, 1, 2]\<close>. Its move objects are the engine's: after
  the caller stores 7 in the index of the first one, the engine's history starts with
  index 7 instead of 0.
\<close>

theorem returned_snapshot_shares_engine_objects:
 "(case new_engine_h [] 3 PlayerX of
     Inl err \<Rightarrow> False
   | Inr (h0, e0) \<Rightarrow>
   (case playMoves_h h0 e0 (map of_index [0, 3, 1, 4]) of
      None \<Rightarrow> False
    | Some (h1, e1) \<Rightarrow>
       (case playMove_h h1 e1 (Finite 2) of
          Some (h2, e2, Inr r) \<Rightarrow>
            r \<noteq> snapshot_ref e2
            \<and> map_option winningLine (read_snapshot h2 (snapshot_ref e2)) = Some (Some [0, 1, 2])
            \<and> (case map_option winningLine_ref (get_snap h2 r) of
                  Some (Some lr) \<Rightarrow>
                    (case store_num h2 lr 0 8 of
                       Some h3 \<Rightarrow>
                         map_option winningLine (read_snapshot h3 (snapshot_ref e2))
                           = Some (Some [8, 1, 2])
                     | None \<Rightarrow> False)
                | _ \<Rightarrow> False)
            \<and> map_option (\<lambda>s. map index (history s)) (read_snapshot h2 (snapshot_ref e2))
                 = Some [0, 3, 1, 4, 2]
            \<and> (case Option.bind (get_snap h2 r) (\<lambda>so. get_moves h2 (history_ref so)) of
                  Some (m # ms) \<Rightarrow>
                    (case store_move_index h2 m 7 of
                       Some h3 \<Rightarrow>
                         map_option (\<lambda>s. map index (history s))
                           (read_snapshot h3 (snapshot_ref e2)) = Some [7, 3, 1, 4, 2]
                     | None \<Rightarrow> False)
                | _ \<Rightarrow> False)
        | _ \<Rightarrow> False)))"
  by code_simp

text \<open>
  C6. The claim: \<^verbatim>\<open>loadSnapshot\<close> fails with \<open>SizeMismatch\<close> exactly when the external board
  does not have \<open>size\<^sup>2\<close> cells, and otherwise adopts the external snapshot verbatim, as a
  deep copy, with no other validation. The failure condition and the adoption of the
  values hold (\<open>loadSnapshot_contract\<close>); the copy is not deep. A caller takes a snapshot
  of a won 3\<times>3 game and loads it into a fresh engine of the same size: the load succeeds,
  and the engine keeps the winning-line array of the external snapshot, so that after the
  caller stores 8 at position 0 of the external snapshot's winning line the engine's
  snapshot has the winning line \<open>[8, 1, 2]\<close>.
\<close>

theorem loadSnapshot_shares_external_winningLine:
 "(case new_engine_h [] 3 PlayerX of
     Inl err \<Rightarrow> False
   | Inr (h0, e0) \<Rightarrow>
   (case playMoves_h h0 e0 (map of_index [0, 3, 1, 4, 2]) of
      None \<Rightarrow> False
    | Some (h1, e1) \<Rightarrow>
       (case getSnapshot_h h1 e1 of
          Some (h2, e2, Inr ext) \<Rightarrow>
            (case new_engine_h h2 3 PlayerX of
               Inl err \<Rightarrow> False
             | Inr (h3, fresh) \<Rightarrow>
                 (case loadSnapshot_h h3 fresh ext of
                    Some (h4, fresh', Inr r) \<Rightarrow>
                      (case map_option winningLine_ref (get_snap h4 ext) of
                         Some (Some lr) \<Rightarrow>
                           map_option winningLine (read_snapshot h4 (snapshot_ref fresh'))
                             = Some (Some [0, 1, 2])
                           \<and> (case store_num h4 lr 0 8 of
                                Some h5 \<Rightarrow>
                                  map_option winningLine (read_snapshot h5 (snapshot_ref fresh'))
                                    = Some (Some [8, 1, 2])
                              | None \<Rightarrow> False)
                       | _ \<Rightarrow> False)
                  | _ \<Rightarrow> False))
        | _ \<Rightarrow> False)))"
  by code_simp

end
